theory Spec2Isabelle
  imports Main "HOL-Library.Sublist"
begin

section \<open>Values, errors and the outside world\<close>

text \<open>
  The server of \<^verbatim>\<open>src/index.ts\<close> keeps three pieces of mutable state: the module
  variables \<^verbatim>\<open>sshTunnel\<close> and \<^verbatim>\<open>idleTimer\<close>, and the private field \<^verbatim>\<open>pool\<close> of the one
  \<^verbatim>\<open>DatabaseClient\<close>. Everything else it does is a call into a library (the file system,
  tunnel-ssh, mysql2, timers, the console). The model passes the state explicitly, takes
  the outcome of every library call from a \<open>world\<close> of oracles, and records every library
  call in a trace, so that "no query was issued" or "one more open attempt" are
  statements about the trace.

  A thrown value is an \<^verbatim>\<open>Error\<close> object: the code reads its \<^verbatim>\<open>code\<close> and \<^verbatim>\<open>message\<close>, and either
  may be undefined. A promise that rejects, or a synchronous throw, is \<open>Inl\<close> of a sum.
\<close>

datatype js_error = JsError (err_code: "string option") (err_message: "string option")

type_synonym rows = "(string \<times> string) list list"

text \<open>The library calls the code makes, in the order it makes them.\<close>

datatype event =
    is_ReadKeyFile: ReadKeyFile
  | is_CreateTunnel: CreateTunnel
  | is_ServerClose: ServerClose nat
  | is_ConnEnd: ConnEnd nat
  | is_CreatePool: CreatePool
  | is_PoolExecute: PoolExecute string
  | is_PoolEnd: PoolEnd
  | is_SetTimeout: SetTimeout nat
  | is_ClearTimeout: ClearTimeout
  | is_ConsoleError: ConsoleError string

text \<open>
  The oracles: what the \<open>k\<close>-th call of each kind does (\<open>k\<close> counts from 0). \<open>None\<close> is a
  call that completes, \<open>Some e\<close> one that throws or rejects with \<open>e\<close>. The two environment
  variables are the ones \<^verbatim>\<open>connect_db\<close> reports.
\<close>

record world =
  readFileSync_throws :: "nat \<Rightarrow> js_error option"
  createTunnel_rejects :: "nat \<Rightarrow> js_error option"
  pool_execute :: "nat \<Rightarrow> string \<Rightarrow> js_error + rows"
  pool_end_rejects :: "nat \<Rightarrow> js_error option"
  server_close_throws :: "nat \<Rightarrow> js_error option"
  conn_end_throws :: "nat \<Rightarrow> js_error option"
  env_DB_HOST :: "string option"
  env_DB_NAME :: "string option"

text \<open>
  The state. A tunnel handle is the index of the \<^verbatim>\<open>createTunnel\<close> call that made it and a
  pool the index of the \<^verbatim>\<open>createPool\<close> call, so two handles are equal exactly when they are
  the same object. \<open>idleTimer\<close> holds the time (in milliseconds) at which the pending
  timeout fires; \<open>now\<close> is the clock.
\<close>

record sys =
  sshTunnel :: "nat option"
  idleTimer :: "nat option"
  pool :: "nat option"
  now :: nat
  trace :: "event list"

definition initial :: sys where
  "initial = \<lparr>sshTunnel = None, idleTimer = None, pool = None, now = 0, trace = []\<rparr>"

definition emit :: "event \<Rightarrow> sys \<Rightarrow> sys" where
  "emit ev s = s\<lparr>trace := trace s @ [ev]\<rparr>"

definition n_events :: "(event \<Rightarrow> bool) \<Rightarrow> sys \<Rightarrow> nat" where
  "n_events P s = length (filter P (trace s))"

text \<open>How a template literal or \<^verbatim>\<open>console.error\<close> prints \<^verbatim>\<open>error.message\<close>.\<close>

definition shown_message :: "js_error \<Rightarrow> string" where
  "shown_message e = (case err_message e of Some m \<Rightarrow> m | None \<Rightarrow> ''undefined'')"

definition IDLE_TIMEOUT_MS :: nat where
  "IDLE_TIMEOUT_MS = 5 * 60 * 1000"

section \<open>DatabaseClient\<close>

definition ensurePool :: "sys \<Rightarrow> nat \<times> sys" where
  "ensurePool s =
     (case pool s of
        Some p \<Rightarrow> (p, s)
      | None \<Rightarrow>
          (let p = n_events is_CreatePool s
           in (p, emit CreatePool (s\<lparr>pool := Some p\<rparr>))))"

definition query :: "world \<Rightarrow> string \<Rightarrow> sys \<Rightarrow> (js_error + rows) \<times> sys" where
  "query W sql s =
     (case ensurePool s of
        (p, s1) \<Rightarrow> (pool_execute W (n_events is_PoolExecute s1) sql, emit (PoolExecute sql) s1))"

definition testConnection :: "world \<Rightarrow> sys \<Rightarrow> bool \<times> sys" where
  "testConnection W s =
     (case query W ''SELECT 1'' s of
        (Inr r, s1) \<Rightarrow> (True, s1)
      | (Inl e, s1) \<Rightarrow> (False, s1))"

text \<open>\<^verbatim>\<open>close\<close>: the reference is cleared only after \<^verbatim>\<open>pool.end()\<close> has resolved.\<close>

definition close :: "world \<Rightarrow> sys \<Rightarrow> (js_error + unit) \<times> sys" where
  "close W s =
     (case pool s of
        None \<Rightarrow> (Inr (), s)
      | Some p \<Rightarrow>
          (case pool_end_rejects W (n_events is_PoolEnd s) of
             Some e \<Rightarrow> (Inl e, emit PoolEnd s)
           | None \<Rightarrow> (Inr (), (emit PoolEnd s)\<lparr>pool := None\<rparr>)))"

section \<open>The tunnel\<close>

text \<open>
  \<^verbatim>\<open>openTunnel\<close> is an async function with one suspension point, the
  \<^verbatim>\<open>await createTunnel(...)\<close>. \<open>openTunnel_start\<close> is the part that runs before it (the
  check of \<^verbatim>\<open>sshTunnel\<close>, the synchronous read of the key file, which is outside the
  \<^verbatim>\<open>try\<close>, and the call of \<^verbatim>\<open>createTunnel\<close>), \<open>openTunnel_resume\<close> the part that runs when
  the promise settles. \<open>openTunnel\<close> runs both with nothing in between.
\<close>

datatype 'a suspended = Settled 'a | AwaitCreateTunnel nat

definition openTunnel_start :: "world \<Rightarrow> sys \<Rightarrow> (js_error + bool) suspended \<times> sys" where
  "openTunnel_start W s =
     (if sshTunnel s \<noteq> None then (Settled (Inr True), s)
      else
        (case readFileSync_throws W (n_events is_ReadKeyFile s) of
           Some e \<Rightarrow> (Settled (Inl e), emit ReadKeyFile s)
         | None \<Rightarrow>
             (AwaitCreateTunnel (n_events is_CreateTunnel s),
              emit CreateTunnel (emit ReadKeyFile s))))"

definition openTunnel_resume :: "world \<Rightarrow> nat \<Rightarrow> sys \<Rightarrow> (js_error + bool) \<times> sys" where
  "openTunnel_resume W k s =
     (case createTunnel_rejects W k of
        None \<Rightarrow> (Inr True, emit (ConsoleError ''SSH tunnel opened'') (s\<lparr>sshTunnel := Some k\<rparr>))
      | Some e \<Rightarrow>
          (Inr False, emit (ConsoleError (''Failed to open SSH tunnel: '' @ shown_message e)) s))"

definition openTunnel :: "world \<Rightarrow> sys \<Rightarrow> (js_error + bool) \<times> sys" where
  "openTunnel W s =
     (case openTunnel_start W s of
        (Settled r, s1) \<Rightarrow> (r, s1)
      | (AwaitCreateTunnel k, s1) \<Rightarrow> openTunnel_resume W k s1)"

text \<open>
  The handlers registered on the SSH connection at open time. Each only logs and
  clears the handle.
\<close>

definition conn_on_close :: "sys \<Rightarrow> sys" where
  "conn_on_close s = (emit (ConsoleError ''SSH connection closed'') s)\<lparr>sshTunnel := None\<rparr>"

definition conn_on_error :: "js_error \<Rightarrow> sys \<Rightarrow> sys" where
  "conn_on_error err s =
     (emit (ConsoleError (''SSH connection error: '' @ shown_message err)) s)\<lparr>sshTunnel := None\<rparr>"

text \<open>
  The \<^verbatim>\<open>try\<close> block of \<^verbatim>\<open>closeTunnel\<close>: \<^verbatim>\<open>server.close()\<close>, then \<^verbatim>\<open>conn.end()\<close>, which
  is skipped when the first throws; the \<^verbatim>\<open>catch\<close> drops the error.
\<close>

definition teardown :: "world \<Rightarrow> nat \<Rightarrow> sys \<Rightarrow> sys" where
  "teardown W h s =
     (case server_close_throws W (n_events is_ServerClose s) of
        Some e \<Rightarrow> emit (ServerClose h) s
      | None \<Rightarrow>
          (case conn_end_throws W (n_events is_ConnEnd s) of
             Some e \<Rightarrow> emit (ConnEnd h) (emit (ServerClose h) s)
           | None \<Rightarrow> emit (ConnEnd h) (emit (ServerClose h) s)))"

definition closeTunnel :: "world \<Rightarrow> sys \<Rightarrow> (js_error + unit) \<times> sys" where
  "closeTunnel W s =
     (let s1 = (case idleTimer s of
                  Some t \<Rightarrow> (emit ClearTimeout s)\<lparr>idleTimer := None\<rparr>
                | None \<Rightarrow> s)
      in case close W s1 of
           (Inl e, s2) \<Rightarrow> (Inl e, s2)
         | (Inr u, s2) \<Rightarrow>
             (case sshTunnel s2 of
                None \<Rightarrow> (Inr (), s2)
              | Some h \<Rightarrow>
                  (Inr (),
                   emit (ConsoleError ''SSH tunnel closed (idle timeout)'')
                     ((teardown W h s2)\<lparr>sshTunnel := None\<rparr>))))"

definition resetIdleTimer :: "sys \<Rightarrow> sys" where
  "resetIdleTimer s =
     (let s1 = (case idleTimer s of Some t \<Rightarrow> emit ClearTimeout s | None \<Rightarrow> s)
      in (emit (SetTimeout (now s1 + IDLE_TIMEOUT_MS)) s1)
           \<lparr>idleTimer := Some (now s1 + IDLE_TIMEOUT_MS)\<rparr>)"

section \<open>The orchestrator\<close>

definition tunnel_error :: js_error where
  "tunnel_error = JsError None (Some ''Could not establish SSH tunnel to database server'')"

definition ensureConnection :: "world \<Rightarrow> sys \<Rightarrow> (js_error + unit) \<times> sys" where
  "ensureConnection W s =
     (if sshTunnel s = None then
        (case openTunnel W s of
           (Inl e, s1) \<Rightarrow> (Inl e, s1)
         | (Inr ok, s1) \<Rightarrow> if \<not> ok then (Inl tunnel_error, s1) else (Inr (), s1))
      else (Inr (), s))"

text \<open>\<^verbatim>\<open>String.prototype.includes\<close>: the pattern occurs somewhere in the string.\<close>

fun str_includes :: "string \<Rightarrow> string \<Rightarrow> bool" where
  "str_includes [] pat = (pat = [])"
| "str_includes (c # cs) pat = (prefix pat (c # cs) \<or> str_includes cs pat)"

definition isTransient :: "js_error \<Rightarrow> bool" where
  "isTransient error =
     (err_code error = Some ''ECONNREFUSED'' \<or>
      err_code error = Some ''ECONNRESET'' \<or>
      err_code error = Some ''PROTOCOL_CONNECTION_LOST'' \<or>
      (case err_message error of Some m \<Rightarrow> str_includes m ''Connection lost'' | None \<Rightarrow> False))"

definition runQuery ::
  "world \<Rightarrow> (sys \<Rightarrow> (js_error + 'a) \<times> sys) \<Rightarrow> sys \<Rightarrow> (js_error + 'a) \<times> sys" where
  "runQuery W queryFn s =
     (case ensureConnection W s of
        (Inl e, s1) \<Rightarrow> (Inl e, s1)
      | (Inr u, s1) \<Rightarrow>
          (case queryFn s1 of
             (Inr result, s2) \<Rightarrow> (Inr result, resetIdleTimer s2)
           | (Inl error, s2) \<Rightarrow>
               if isTransient error then
                 (case closeTunnel W (emit (ConsoleError ''Connection lost, reconnecting...'') s2) of
                    (Inl e, s3) \<Rightarrow> (Inl e, s3)
                  | (Inr u, s3) \<Rightarrow>
                      (case ensureConnection W s3 of
                         (Inl e, s4) \<Rightarrow> (Inl e, s4)
                       | (Inr u, s4) \<Rightarrow>
                           (case queryFn s4 of
                              (Inr result, s5) \<Rightarrow> (Inr result, resetIdleTimer s5)
                            | (Inl e, s5) \<Rightarrow> (Inl e, s5))))
               else (Inl error, s2)))"

section \<open>Validation and sanitization\<close>

text \<open>
  A \<open>string\<close> is a list of 8-bit characters, read here as the UTF-16 code units
  U+0000 to U+00FF; code units above U+00FF are outside the model. In this range
  \<^verbatim>\<open>trim\<close> strips TAB, LF, VT, FF, CR, SPACE and NBSP from both ends, and \<^verbatim>\<open>toLowerCase\<close>
  maps A to Z and the Latin-1 capitals (U+00C0 to U+00DE without U+00D7) to the letter
  32 places up.
\<close>

definition isWhiteSpace :: "char \<Rightarrow> bool" where
  "isWhiteSpace c = ((of_char c :: nat) \<in> {9, 10, 11, 12, 13, 32, 160})"

definition trim :: "string \<Rightarrow> string" where
  "trim s = rev (dropWhile isWhiteSpace (rev (dropWhile isWhiteSpace s)))"

definition lower_char :: "char \<Rightarrow> char" where
  "lower_char c =
     (let n = (of_char c :: nat)
      in if (65 \<le> n \<and> n \<le> 90) \<or> (192 \<le> n \<and> n \<le> 222 \<and> n \<noteq> 215)
         then char_of (n + 32) else c)"

definition toLowerCase :: "string \<Rightarrow> string" where
  "toLowerCase s = map lower_char s"

definition startsWith :: "string \<Rightarrow> string \<Rightarrow> bool" where
  "startsWith s pat = prefix pat s"

definition isReadOnlyQuery :: "string \<Rightarrow> bool" where
  "isReadOnlyQuery sql =
     (let trimmed = toLowerCase (trim sql)
      in startsWith trimmed ''select'' \<or> startsWith trimmed ''show'' \<or>
         startsWith trimmed ''describe'')"

text \<open>
  \<^verbatim>\<open>s.replace(/[^...]/g, r)\<close> with a one-character class: scan the string and put the
  replacement in the place of every code unit the pattern matches.
\<close>

fun replace_g :: "(char \<Rightarrow> bool) \<Rightarrow> string \<Rightarrow> string \<Rightarrow> string" where
  "replace_g matches r [] = []"
| "replace_g matches r (c # cs) =
     (if matches c then r @ replace_g matches r cs else c # replace_g matches r cs)"

text \<open>The class \<^verbatim>\<open>[a-zA-Z0-9_]\<close>.\<close>

definition word_char :: "char \<Rightarrow> bool" where
  "word_char c =
     (let n = (of_char c :: nat)
      in (97 \<le> n \<and> n \<le> 122) \<or> (65 \<le> n \<and> n \<le> 90) \<or> (48 \<le> n \<and> n \<le> 57) \<or> n = 95)"

definition sanitizeTableName :: "string \<Rightarrow> string" where
  "sanitizeTableName table = replace_g (\<lambda>c. \<not> word_char c) [] table"

text \<open>
  The leading keyword of a statement, in the words of the specification (section
  4.4): the statement is trimmed, and its keyword is the leading run of word
  characters, compared without regard to case.
\<close>

definition spec_leadingKeyword :: "string \<Rightarrow> string" where
  "spec_leadingKeyword sql = takeWhile word_char (toLowerCase (trim sql))"

section \<open>The tool-call handler\<close>

text \<open>
  The arguments of a call arrive as JSON: \<^verbatim>\<open>request.params.arguments\<close> may be missing,
  and a property may be missing or hold something that is not a string. The casts
  \<^verbatim>\<open>as any\<close> and \<^verbatim>\<open>as string\<close> check nothing, so the first method call on such a value
  throws a \<^verbatim>\<open>TypeError\<close> (the messages are V8's).
\<close>

datatype jsval = JString string | JUndefined | JNull | JOther

type_synonym args = "(string \<Rightarrow> jsval) option"

definition TypeError :: "string \<Rightarrow> js_error" where
  "TypeError m = JsError None (Some m)"

definition Error :: "string \<Rightarrow> js_error" where
  "Error m = JsError None (Some m)"

definition get_arg :: "args \<Rightarrow> string \<Rightarrow> js_error + jsval" where
  "get_arg a k =
     (case a of
        None \<Rightarrow> Inl (TypeError (''Cannot read properties of undefined (reading '' @ [CHR 0x27] @ k @ [CHR 0x27] @ '')''))
      | Some f \<Rightarrow> Inr (f k))"

text \<open>What calling method \<open>m\<close> on the variable named \<open>v\<close> throws when the value is not a string.\<close>

definition not_a_string :: "string \<Rightarrow> string \<Rightarrow> jsval \<Rightarrow> js_error" where
  "not_a_string v m x =
     (case x of
        JUndefined \<Rightarrow> TypeError (''Cannot read properties of undefined (reading '' @ [CHR 0x27] @ m @ [CHR 0x27] @ '')'')
      | JNull \<Rightarrow> TypeError (''Cannot read properties of null (reading '' @ [CHR 0x27] @ m @ [CHR 0x27] @ '')'')
      | _ \<Rightarrow> TypeError (v @ ''.'' @ m @ '' is not a function''))"

text \<open>
  The text of a result is either a template string or \<^verbatim>\<open>JSON.stringify(v, null, 2)\<close>,
  which is kept as the value \<open>v\<close> it prints. A property whose value is undefined is
  left out by \<^verbatim>\<open>JSON.stringify\<close>; \<open>JUndef\<close> stands for it.
\<close>

datatype json = JBool bool | JStr string | JUndef | JRows rows | JObject "(string \<times> json) list"

datatype tool_text = JSON_stringify json | Plain string

type_synonym payload = "tool_text list"

definition json_of_env :: "string option \<Rightarrow> json" where
  "json_of_env v = (case v of Some x \<Rightarrow> JStr x | None \<Rightarrow> JUndef)"

definition results_payload :: "(js_error + rows) \<times> sys \<Rightarrow> (js_error + payload) \<times> sys" where
  "results_payload r =
     (case r of
        (Inl e, s) \<Rightarrow> (Inl e, s)
      | (Inr results, s) \<Rightarrow> (Inr [JSON_stringify (JRows results)], s))"

text \<open>The \<^verbatim>\<open>try\<close> block of the handler: the \<^verbatim>\<open>switch\<close> over the tool name.\<close>

definition toolBody :: "world \<Rightarrow> string \<Rightarrow> args \<Rightarrow> sys \<Rightarrow> (js_error + payload) \<times> sys" where
  "toolBody W name a s =
     (if name = ''read_query'' then
        (case get_arg a ''sql'' of
           Inl e \<Rightarrow> (Inl e, s)
         | Inr (JString sql) \<Rightarrow>
             if \<not> isReadOnlyQuery sql
             then (Inl (Error ''Only SELECT, SHOW, and DESCRIBE queries are allowed''), s)
             else results_payload (runQuery W (query W sql) s)
         | Inr v \<Rightarrow> (Inl (not_a_string ''sql'' ''trim'' v), s))
      else if name = ''list_tables'' then
        results_payload (runQuery W (query W ''SHOW TABLES'') s)
      else if name = ''describe_table'' then
        (case get_arg a ''table'' of
           Inl e \<Rightarrow> (Inl e, s)
         | Inr (JString table) \<Rightarrow>
             (let sanitized = sanitizeTableName table
              in results_payload (runQuery W (query W (''DESCRIBE '' @ sanitized)) s))
         | Inr v \<Rightarrow> (Inl (not_a_string ''table'' ''replace'' v), s))
      else if name = ''connect_db'' then
        (case ensureConnection W s of
           (Inl e, s1) \<Rightarrow> (Inl e, s1)
         | (Inr u, s1) \<Rightarrow>
             (case testConnection W s1 of
                (isConnected, s2) \<Rightarrow>
                  (let s3 = resetIdleTimer s2
                   in (Inr [JSON_stringify (JObject
                         [(''connected'', JBool isConnected),
                          (''host'', json_of_env (env_DB_HOST W)),
                          (''database'', json_of_env (env_DB_NAME W)),
                          (''tunnel'', JStr (if sshTunnel s3 \<noteq> None then ''open'' else ''closed''))])],
                       s3))))
      else (Inl (Error (''Unknown tool: '' @ name)), s))"

text \<open>The handler: the \<^verbatim>\<open>catch\<close> turns whatever the body threw into a text result.\<close>

definition error_payload :: "js_error \<Rightarrow> payload" where
  "error_payload error = [Plain (''Error: '' @ shown_message error)]"

definition callTool :: "world \<Rightarrow> string \<Rightarrow> args \<Rightarrow> sys \<Rightarrow> (js_error + payload) \<times> sys" where
  "callTool W name a s =
     (case toolBody W name a s of
        (Inr p, s1) \<Rightarrow> (Inr p, s1)
      | (Inl error, s1) \<Rightarrow> (Inr (error_payload error), s1))"

section \<open>What can happen to the server\<close>

text \<open>
  Between two tool calls time may pass, the SSH connection of a tunnel that was opened
  may emit \<^verbatim>\<open>close\<close> or \<^verbatim>\<open>error\<close>, and the process may receive SIGINT. When the pending
  timeout is reached its callback runs \<^verbatim>\<open>closeTunnel()\<close>; the callback does not look at
  the promise, so a rejection is lost. The SIGINT handler logs, runs \<^verbatim>\<open>closeTunnel()\<close>
  and exits; the exit itself is not part of the state.
\<close>

definition elapse :: "world \<Rightarrow> nat \<Rightarrow> sys \<Rightarrow> sys" where
  "elapse W d s =
     (case idleTimer s of
        None \<Rightarrow> s\<lparr>now := now s + d\<rparr>
      | Some t \<Rightarrow>
          if t \<le> now s + d
          then (snd (closeTunnel W (s\<lparr>now := max t (now s)\<rparr>)))\<lparr>now := now s + d\<rparr>
          else s\<lparr>now := now s + d\<rparr>)"

text \<open>
  The handlers of connection \<open>h\<close> exist once the \<open>h\<close>-th \<^verbatim>\<open>createTunnel\<close> has resolved, and
  they are never removed. A \<^verbatim>\<open>close\<close> or \<^verbatim>\<open>error\<close> event of connection \<open>h\<close> may have any cause:
  the connection dropped, or \<open>closeTunnel\<close> itself called \<^verbatim>\<open>conn.end()\<close> on it. Either way
  the handler clears the variable \<^verbatim>\<open>sshTunnel\<close>, whichever handle it holds by then.
\<close>

definition registered :: "world \<Rightarrow> nat \<Rightarrow> sys \<Rightarrow> bool" where
  "registered W h s = (h < n_events is_CreateTunnel s \<and> createTunnel_rejects W h = None)"

datatype action =
    CallTool string args
  | Elapse nat
  | ConnClose nat
  | ConnError nat js_error
  | Sigint

fun step :: "world \<Rightarrow> action \<Rightarrow> sys \<Rightarrow> sys" where
  "step W (CallTool name a) s = snd (callTool W name a s)"
| "step W (Elapse d) s = elapse W d s"
| "step W (ConnClose h) s = (if registered W h s then conn_on_close s else s)"
| "step W (ConnError h err) s = (if registered W h s then conn_on_error err s else s)"
| "step W Sigint s = snd (closeTunnel W (emit (ConsoleError ''Shutting down...'') s))"

definition run :: "world \<Rightarrow> action list \<Rightarrow> sys \<Rightarrow> sys" where
  "run W acts s = foldl (\<lambda>s a. step W a s) s acts"

text \<open>The action is an event of a connection whose handler runs in state \<open>s\<close>.\<close>

fun handler_runs :: "world \<Rightarrow> action \<Rightarrow> sys \<Rightarrow> bool" where
  "handler_runs W (ConnClose h) s = registered W h s"
| "handler_runs W (ConnError h err) s = registered W h s"
| "handler_runs W a s = False"

text \<open>Somewhere in the run a connection handler runs while a pool exists.\<close>

fun handler_meets_pool :: "world \<Rightarrow> action list \<Rightarrow> sys \<Rightarrow> bool" where
  "handler_meets_pool W [] s = False"
| "handler_meets_pool W (act # acts) s =
     ((handler_runs W act s \<and> pool s \<noteq> None) \<or> handler_meets_pool W acts (step W act s))"

section \<open>Concrete worlds and arguments\<close>

text \<open>Inputs on which the theorems below are run.\<close>

definition some_rows :: rows where
  "some_rows = [[(''1'', ''1'')]]"

definition healthy :: world where
  "healthy =
     \<lparr>readFileSync_throws = (\<lambda>k. None),
      createTunnel_rejects = (\<lambda>k. None),
      pool_execute = (\<lambda>k sql. Inr some_rows),
      pool_end_rejects = (\<lambda>k. None),
      server_close_throws = (\<lambda>k. None),
      conn_end_throws = (\<lambda>k. None),
      env_DB_HOST = Some ''localhost'',
      env_DB_NAME = Some ''app''\<rparr>"

definition ECONNRESET :: js_error where
  "ECONNRESET = JsError (Some ''ECONNRESET'') (Some ''read ECONNRESET'')"

definition ECONNREFUSED :: js_error where
  "ECONNREFUSED = JsError (Some ''ECONNREFUSED'') (Some ''connect ECONNREFUSED 127.0.0.1:33061'')"

definition ER_NO_SUCH_TABLE :: js_error where
  "ER_NO_SUCH_TABLE = JsError (Some ''ER_NO_SUCH_TABLE'') (Some ''Table app.missing does not exist'')"

definition ER_ACCESS_DENIED :: js_error where
  "ER_ACCESS_DENIED = JsError (Some ''ER_ACCESS_DENIED_ERROR'') (Some ''Access denied for user root'')"

definition ENOENT :: js_error where
  "ENOENT = JsError (Some ''ENOENT'') (Some ''ENOENT: no such file or directory, open'')"

text \<open>The first statement sent to the pool fails with a reset, every later one succeeds.\<close>

definition flaky :: world where
  "flaky = healthy\<lparr>pool_execute := (\<lambda>k sql. if k = 0 then Inl ECONNRESET else Inr some_rows)\<rparr>"

text \<open>As \<open>flaky\<close>, and only the first \<^verbatim>\<open>createTunnel\<close> succeeds.\<close>

definition reopen_fails :: world where
  "reopen_fails = flaky\<lparr>createTunnel_rejects := (\<lambda>k. if k = 0 then None else Some ECONNREFUSED)\<rparr>"

definition no_such_table :: world where
  "no_such_table = healthy\<lparr>pool_execute := (\<lambda>k sql. Inl ER_NO_SUCH_TABLE)\<rparr>"

definition access_denied :: world where
  "access_denied = healthy\<lparr>pool_execute := (\<lambda>k sql. Inl ER_ACCESS_DENIED)\<rparr>"

definition end_fails :: world where
  "end_fails = healthy\<lparr>pool_end_rejects := (\<lambda>k. Some ECONNRESET)\<rparr>"

definition no_key :: world where
  "no_key = healthy\<lparr>readFileSync_throws := (\<lambda>k. Some ENOENT)\<rparr>"

definition no_args :: "string \<Rightarrow> jsval" where
  "no_args k = JUndefined"

definition sql_arg :: "string \<Rightarrow> args" where
  "sql_arg q = Some (no_args(''sql'' := JString q))"

definition table_arg :: "string \<Rightarrow> args" where
  "table_arg t = Some (no_args(''table'' := JString t))"

section \<open>The invariant of pool and tunnel\<close>

text \<open>A pool is only there while a tunnel handle is there.\<close>

definition pool_needs_tunnel :: "sys \<Rightarrow> bool" where
  "pool_needs_tunnel s = (pool s \<noteq> None \<longrightarrow> sshTunnel s \<noteq> None)"

section \<open>Basic facts\<close>

lemma initial_fields:
  "sshTunnel initial = None" "idleTimer initial = None" "pool initial = None"
  "now initial = 0" "trace initial = []"
  by (simp_all add: initial_def)

lemma emit_fields [simp]:
  "sshTunnel (emit ev s) = sshTunnel s" "idleTimer (emit ev s) = idleTimer s"
  "pool (emit ev s) = pool s" "now (emit ev s) = now s" "trace (emit ev s) = trace s @ [ev]"
  by (simp_all add: emit_def)

lemma n_events_emit [simp]:
  "n_events P (emit ev s) = (if P ev then Suc (n_events P s) else n_events P s)"
  by (simp add: n_events_def)

lemma n_events_update [simp]:
  "n_events P (s\<lparr>sshTunnel := a\<rparr>) = n_events P s"
  "n_events P (s\<lparr>idleTimer := b\<rparr>) = n_events P s"
  "n_events P (s\<lparr>pool := c\<rparr>) = n_events P s"
  "n_events P (s\<lparr>now := d\<rparr>) = n_events P s"
  by (simp_all add: n_events_def)

lemma n_events_initial [simp]: "n_events P initial = 0"
  by (simp add: n_events_def initial_def)

subsection \<open>Opening the tunnel\<close>

lemma openTunnel_open: "sshTunnel s \<noteq> None \<Longrightarrow> openTunnel W s = (Inr True, s)"
  by (simp add: openTunnel_def openTunnel_start_def)

lemma openTunnel_frame:
  assumes "openTunnel W s = (r, s1)"
  shows "pool s1 = pool s" and "idleTimer s1 = idleTimer s" and "now s1 = now s"
    and "r = Inr True \<Longrightarrow> sshTunnel s1 \<noteq> None"
    and "r \<noteq> Inr True \<Longrightarrow> sshTunnel s1 = sshTunnel s"
    and "\<not> P ReadKeyFile \<Longrightarrow> \<not> P CreateTunnel \<Longrightarrow> (\<And>m. \<not> P (ConsoleError m)) \<Longrightarrow> n_events P s1 = n_events P s"
  using assms
  by (auto simp: openTunnel_def openTunnel_start_def openTunnel_resume_def
      split: if_splits option.splits)

lemma openTunnel_attempts:
  assumes "openTunnel W s = (Inr b, s1)" and "sshTunnel s = None"
  shows "n_events is_CreateTunnel s1 = Suc (n_events is_CreateTunnel s)"
  using assms
  by (auto simp: openTunnel_def openTunnel_start_def openTunnel_resume_def
      split: if_splits option.splits)

subsection \<open>Ensuring a connection\<close>

lemma ensureConnection_open: "sshTunnel s \<noteq> None \<Longrightarrow> ensureConnection W s = (Inr (), s)"
  by (auto simp: ensureConnection_def)

lemma ensureConnection_frame:
  assumes "ensureConnection W s = (r, s1)"
  shows "pool s1 = pool s" and "idleTimer s1 = idleTimer s" and "now s1 = now s"
    and "\<not> P ReadKeyFile \<Longrightarrow> \<not> P CreateTunnel \<Longrightarrow> (\<And>m. \<not> P (ConsoleError m)) \<Longrightarrow> n_events P s1 = n_events P s"
  using assms openTunnel_frame[of W s]
  by (auto simp: ensureConnection_def split: if_splits prod.splits sum.splits)

lemma ensureConnection_ok:
  assumes "ensureConnection W s = (Inr u, s1)"
  shows "sshTunnel s1 \<noteq> None"
  using assms openTunnel_frame(4)[of W s]
  by (auto simp: ensureConnection_def split: if_splits prod.splits sum.splits)

lemma ensureConnection_failed:
  assumes "ensureConnection W s = (Inl e, s1)"
  shows "sshTunnel s1 = None"
  using assms openTunnel_frame(5)[of W s]
  by (auto simp: ensureConnection_def split: if_splits prod.splits sum.splits)

lemma ensureConnection_attempts:
  assumes "ensureConnection W s = (Inr u, s1)" and "sshTunnel s = None"
  shows "n_events is_CreateTunnel s1 = Suc (n_events is_CreateTunnel s)"
  using assms openTunnel_attempts[of W s]
  by (auto simp: ensureConnection_def split: if_splits prod.splits sum.splits)

subsection \<open>Queries\<close>

lemma query_result: "fst (query W sql s) = pool_execute W (n_events is_PoolExecute s) sql"
  by (simp add: query_def ensurePool_def Let_def split: option.splits)

lemma query_frame:
  "sshTunnel (snd (query W sql s)) = sshTunnel s"
  "idleTimer (snd (query W sql s)) = idleTimer s"
  "now (snd (query W sql s)) = now s"
  "pool (snd (query W sql s)) \<noteq> None"
  "pool s \<noteq> None \<Longrightarrow> pool (snd (query W sql s)) = pool s"
  "n_events is_PoolExecute (snd (query W sql s)) = Suc (n_events is_PoolExecute s)"
  "\<not> P CreatePool \<Longrightarrow> (\<And>q. \<not> P (PoolExecute q)) \<Longrightarrow> n_events P (snd (query W sql s)) = n_events P s"
  by (auto simp: query_def ensurePool_def Let_def split: option.splits)

subsection \<open>Closing the tunnel\<close>

lemma teardown_frame [simp]:
  "pool (teardown W h s) = pool s" "idleTimer (teardown W h s) = idleTimer s"
  "now (teardown W h s) = now s" "sshTunnel (teardown W h s) = sshTunnel s"
  "n_events is_ServerClose (teardown W h s) = Suc (n_events is_ServerClose s)"
  "\<not> P (ServerClose h) \<Longrightarrow> \<not> P (ConnEnd h) \<Longrightarrow> n_events P (teardown W h s) = n_events P s"
  by (auto simp: teardown_def split: option.splits)

lemma closeTunnel_ok:
  assumes "closeTunnel W s = (Inr u, s1)"
  shows "sshTunnel s1 = None" and "pool s1 = None" and "idleTimer s1 = None" and "now s1 = now s"
    and "n_events is_PoolExecute s1 = n_events is_PoolExecute s"
    and "n_events is_CreateTunnel s1 = n_events is_CreateTunnel s"
    and "pool s \<noteq> None \<Longrightarrow> n_events is_PoolEnd s1 = Suc (n_events is_PoolEnd s)"
    and "sshTunnel s \<noteq> None \<Longrightarrow> n_events is_ServerClose s1 = Suc (n_events is_ServerClose s)"
  using assms
  by (auto simp: closeTunnel_def close_def Let_def split: option.splits prod.splits sum.splits)

lemma closeTunnel_failed:
  assumes "closeTunnel W s = (Inl e, s1)"
  shows "sshTunnel s1 = sshTunnel s" and "pool s1 = pool s" and "pool s \<noteq> None"
    and "idleTimer s1 = None"
    and "pool_end_rejects W (n_events is_PoolEnd s) = Some e"
  using assms
  by (auto simp: closeTunnel_def close_def Let_def split: option.splits prod.splits sum.splits)

lemma resetIdleTimer_frame [simp]:
  "sshTunnel (resetIdleTimer s) = sshTunnel s" "pool (resetIdleTimer s) = pool s"
  "now (resetIdleTimer s) = now s"
  "idleTimer (resetIdleTimer s) = Some (now s + IDLE_TIMEOUT_MS)"
  "\<not> P ClearTimeout \<Longrightarrow> (\<And>t. \<not> P (SetTimeout t)) \<Longrightarrow> n_events P (resetIdleTimer s) = n_events P s"
  by (auto simp: resetIdleTimer_def Let_def split: option.splits)

text \<open>The definitions of the program that a concrete run unfolds.\<close>

lemmas eval_defs =
  callTool_def toolBody_def get_arg_def not_a_string_def TypeError_def Error_def
  error_payload_def shown_message_def results_payload_def json_of_env_def
  isReadOnlyQuery_def toLowerCase_def trim_def isWhiteSpace_def lower_char_def startsWith_def
  sanitizeTableName_def word_char_def
  runQuery_def ensureConnection_def tunnel_error_def isTransient_def
  openTunnel_def openTunnel_start_def openTunnel_resume_def
  closeTunnel_def close_def teardown_def resetIdleTimer_def IDLE_TIMEOUT_MS_def
  query_def ensurePool_def testConnection_def
  elapse_def registered_def conn_on_close_def conn_on_error_def run_def
  initial_fields Let_def char_of_def bit_0

section \<open>Retry after a transient failure\<close>

lemma ensureConnection_at_most_one_attempt:
  assumes "ensureConnection W s = (r, s1)"
  shows "n_events is_CreateTunnel s1 \<le> Suc (n_events is_CreateTunnel s)"
  using assms
  by (auto simp: ensureConnection_def openTunnel_def openTunnel_start_def openTunnel_resume_def
      split: if_splits option.splits prod.splits sum.splits)

text \<open>
  Claim C1, as amended. A statement sent through \<open>runQuery\<close> fails with a transient
  error and the teardown that follows completes. Then \<open>runQuery\<close> has torn down once
  (one \<^verbatim>\<open>pool.end\<close>, one \<^verbatim>\<open>server.close\<close>) and asked once for the tunnel again. When the
  tunnel is there again the statement is sent exactly once more, and what that second
  attempt gives, rows or error, is what the caller gets: a second error is not retried,
  whether transient or not. When the tunnel cannot be opened again that failure is what
  the caller gets, and the statement is not sent a second time.
\<close>

theorem runQuery_retries_once:
  assumes conn: "ensureConnection W s = (Inr u, s1)"
    and fail1: "pool_execute W (n_events is_PoolExecute s) sql = Inl e1"
    and trans: "isTransient e1"
    and down: "closeTunnel W (emit (ConsoleError ''Connection lost, reconnecting...'')
                 (snd (query W sql s1))) = (Inr u', s3)"
    and reopen: "ensureConnection W s3 = (r, s4)"
  shows "runQuery W (query W sql) s =
           (case r of
              Inl e \<Rightarrow> (Inl e, s4)
            | Inr u'' \<Rightarrow>
                (case pool_execute W (Suc (n_events is_PoolExecute s)) sql of
                   Inr result \<Rightarrow> (Inr result, resetIdleTimer (snd (query W sql s4)))
                 | Inl e2 \<Rightarrow> (Inl e2, snd (query W sql s4))))
         \<and> n_events is_PoolExecute (snd (runQuery W (query W sql) s)) =
             (case r of Inl e \<Rightarrow> n_events is_PoolExecute s + 1
                      | Inr u'' \<Rightarrow> n_events is_PoolExecute s + 2)
         \<and> n_events is_PoolEnd (snd (runQuery W (query W sql) s)) = n_events is_PoolEnd s + 1
         \<and> n_events is_ServerClose (snd (runQuery W (query W sql) s)) = n_events is_ServerClose s + 1
         \<and> (case r of
               Inl e \<Rightarrow> n_events is_CreateTunnel (snd (runQuery W (query W sql) s))
                          \<le> n_events is_CreateTunnel s1 + 1
             | Inr u'' \<Rightarrow> n_events is_CreateTunnel (snd (runQuery W (query W sql) s))
                          = n_events is_CreateTunnel s1 + 1)"
proof -
  have n1: "n_events is_PoolExecute s1 = n_events is_PoolExecute s"
    using ensureConnection_frame(4)[OF conn, of is_PoolExecute] by simp
  obtain s2 where q1: "query W sql s1 = (Inl e1, s2)"
    using query_result[of W sql s1] fail1 n1 by (cases "query W sql s1") simp
  have s2: "s2 = snd (query W sql s1)" by (simp add: q1)
  have down': "closeTunnel W (emit (ConsoleError ''Connection lost, reconnecting...'') s2) = (Inr u', s3)"
    using down by (simp add: q1)
  have n3: "n_events is_PoolExecute s3 = Suc (n_events is_PoolExecute s)"
    using closeTunnel_ok(5)[OF down'] n1 by (simp add: s2 query_frame)
  have n4: "n_events is_PoolExecute s4 = Suc (n_events is_PoolExecute s)"
    using ensureConnection_frame(4)[OF reopen, of is_PoolExecute] n3 by simp
  have pe1: "n_events is_PoolEnd s2 = n_events is_PoolEnd s"
    using ensureConnection_frame(4)[OF conn, of is_PoolEnd] by (simp add: s2 query_frame)
  have "pool s2 \<noteq> None" by (simp add: s2 query_frame)
  then have pe3: "n_events is_PoolEnd s3 = Suc (n_events is_PoolEnd s)"
    using closeTunnel_ok(7)[OF down'] pe1 by simp
  have pe4: "n_events is_PoolEnd s4 = Suc (n_events is_PoolEnd s)"
    using ensureConnection_frame(4)[OF reopen, of is_PoolEnd] pe3 by simp
  have sc1: "n_events is_ServerClose s2 = n_events is_ServerClose s"
    using ensureConnection_frame(4)[OF conn, of is_ServerClose] by (simp add: s2 query_frame)
  have "sshTunnel s2 \<noteq> None"
    using ensureConnection_ok[OF conn] by (simp add: s2 query_frame)
  then have sc3: "n_events is_ServerClose s3 = Suc (n_events is_ServerClose s)"
    using closeTunnel_ok(8)[OF down'] sc1 by simp
  have sc4: "n_events is_ServerClose s4 = Suc (n_events is_ServerClose s)"
    using ensureConnection_frame(4)[OF reopen, of is_ServerClose] sc3 by simp
  have ct3: "n_events is_CreateTunnel s3 = n_events is_CreateTunnel s1"
    using closeTunnel_ok(6)[OF down'] by (simp add: s2 query_frame)
  show ?thesis
  proof (cases r)
    case (Inl e)
    have res: "runQuery W (query W sql) s = (Inl e, s4)"
      using reopen Inl by (simp add: runQuery_def conn q1 trans down')
    have "n_events is_CreateTunnel s4 \<le> n_events is_CreateTunnel s1 + 1"
      using ensureConnection_at_most_one_attempt[OF reopen] ct3 by simp
    then show ?thesis using Inl res n4 pe4 sc4 by simp
  next
    case (Inr u'')
    obtain s5 where q2: "query W sql s4 = (pool_execute W (Suc (n_events is_PoolExecute s)) sql, s5)"
      using query_result[of W sql s4] n4 by (cases "query W sql s4") simp
    have s5: "s5 = snd (query W sql s4)" by (simp add: q2)
    have res: "runQuery W (query W sql) s =
             (case pool_execute W (Suc (n_events is_PoolExecute s)) sql of
                Inr result \<Rightarrow> (Inr result, resetIdleTimer s5)
              | Inl e2 \<Rightarrow> (Inl e2, s5))"
      using reopen Inr by (simp add: runQuery_def conn q1 trans down' q2 split: sum.splits)
    have fin: "snd (runQuery W (query W sql) s) = s5
               \<or> snd (runQuery W (query W sql) s) = resetIdleTimer s5"
      by (simp add: res split: sum.splits)
    have e5: "n_events is_PoolExecute s5 = n_events is_PoolExecute s + 2"
      using n4 by (simp add: s5 query_frame)
    have pe5: "n_events is_PoolEnd s5 = n_events is_PoolEnd s + 1"
      using pe4 by (simp add: s5 query_frame)
    have sc5: "n_events is_ServerClose s5 = n_events is_ServerClose s + 1"
      using sc4 by (simp add: s5 query_frame)
    have ct4: "n_events is_CreateTunnel s4 = Suc (n_events is_CreateTunnel s1)"
      using ensureConnection_attempts[of W s3 u'' s4] reopen Inr closeTunnel_ok(1)[OF down'] ct3
      by simp
    have ct5: "n_events is_CreateTunnel s5 = n_events is_CreateTunnel s1 + 1"
      using ct4 by (simp add: s5 query_frame)
    have counts: "n_events is_PoolExecute (snd (runQuery W (query W sql) s)) = n_events is_PoolExecute s + 2
         \<and> n_events is_PoolEnd (snd (runQuery W (query W sql) s)) = n_events is_PoolEnd s + 1
         \<and> n_events is_ServerClose (snd (runQuery W (query W sql) s)) = n_events is_ServerClose s + 1
         \<and> n_events is_CreateTunnel (snd (runQuery W (query W sql) s)) = n_events is_CreateTunnel s1 + 1"
      using fin e5 pe5 sc5 ct5 by auto
    show ?thesis using res counts Inr unfolding s5 by simp
  qed
qed

text \<open>
  The theorem at work: the first statement is reset, teardown and reopen succeed, and
  the second attempt returns its rows.
\<close>

theorem runQuery_retries_once_witness:
  "fst (runQuery flaky (query flaky ''SELECT 1'') initial) = Inr some_rows
   \<and> n_events is_PoolExecute (snd (runQuery flaky (query flaky ''SELECT 1'') initial)) = 2
   \<and> n_events is_PoolEnd (snd (runQuery flaky (query flaky ''SELECT 1'') initial)) = 1
   \<and> n_events is_CreateTunnel (snd (runQuery flaky (query flaky ''SELECT 1'') initial)) = 2"
proof -
  note defs = eval_defs flaky_def healthy_def ECONNRESET_def some_rows_def
  let ?s1 = "snd (ensureConnection flaky initial)"
  let ?s3 = "snd (closeTunnel flaky (emit (ConsoleError ''Connection lost, reconnecting...'')
                 (snd (query flaky ''SELECT 1'' ?s1))))"
  let ?s4 = "snd (ensureConnection flaky ?s3)"
  have 1: "ensureConnection flaky initial = (Inr (), ?s1)"
    by (simp add: defs)
  have 2: "pool_execute flaky (n_events is_PoolExecute initial) ''SELECT 1'' = Inl ECONNRESET"
    by (simp add: defs)
  have 3: "isTransient ECONNRESET"
    by (simp add: defs)
  have 4: "closeTunnel flaky (emit (ConsoleError ''Connection lost, reconnecting...'')
                 (snd (query flaky ''SELECT 1'' ?s1))) = (Inr (), ?s3)"
    by (simp add: defs)
  have 5: "ensureConnection flaky ?s3 = (Inr (), ?s4)"
    by (simp add: defs)
  show ?thesis
    using runQuery_retries_once[OF 1 2 3 4 5] by (simp add: defs)
qed

text \<open>
  Claim C1 as it was stated fails where the tunnel does not open again: the first
  attempt fails with a reset, a second attempt would have succeeded, but no second
  attempt is made and the caller gets the tunnel error.
\<close>

theorem runQuery_reopen_fails_counterexample:
  "pool_execute reopen_fails 0 ''SELECT 1'' = Inl ECONNRESET
   \<and> isTransient ECONNRESET
   \<and> pool_execute reopen_fails 1 ''SELECT 1'' = Inr some_rows
   \<and> fst (runQuery reopen_fails (query reopen_fails ''SELECT 1'') initial) = Inl tunnel_error
   \<and> n_events is_PoolExecute (snd (runQuery reopen_fails (query reopen_fails ''SELECT 1'') initial)) = 1"
  by (simp add: eval_defs reopen_fails_def flaky_def healthy_def ECONNRESET_def
        ECONNREFUSED_def some_rows_def)

section \<open>Read-only validation\<close>

text \<open>
  Claim C2, as amended. A statement that, trimmed and in lower case, does not start
  with the characters \<^verbatim>\<open>select\<close>, \<^verbatim>\<open>show\<close> or \<^verbatim>\<open>describe\<close> is rejected by \<^verbatim>\<open>read_query\<close> with
  the validation message, and the state is the one before the call: nothing was sent
  to the pool, no tunnel was opened, no library was called at all.
\<close>

theorem read_query_rejects:
  assumes "\<not> prefix ''select'' (toLowerCase (trim sql))"
    and "\<not> prefix ''show'' (toLowerCase (trim sql))"
    and "\<not> prefix ''describe'' (toLowerCase (trim sql))"
  shows "callTool W ''read_query'' (Some (a(''sql'' := JString sql))) s =
           (Inr [Plain ''Error: Only SELECT, SHOW, and DESCRIBE queries are allowed''], s)"
  using assms
  by (simp add: callTool_def toolBody_def get_arg_def isReadOnlyQuery_def
      startsWith_def error_payload_def shown_message_def Error_def)

text \<open>The theorem at work on a \<^verbatim>\<open>DROP TABLE\<close>.\<close>

theorem read_query_rejects_witness:
  "callTool healthy ''read_query'' (sql_arg ''  DROP TABLE x'') initial =
     (Inr [Plain ''Error: Only SELECT, SHOW, and DESCRIBE queries are allowed''], initial)"
proof -
  have 1: "\<not> prefix ''select'' (toLowerCase (trim ''  DROP TABLE x''))" by (simp add:
        eval_defs healthy_def)
  have 2: "\<not> prefix ''show'' (toLowerCase (trim ''  DROP TABLE x''))" by (simp add:
        eval_defs healthy_def)
  have 3: "\<not> prefix ''describe'' (toLowerCase (trim ''  DROP TABLE x''))" by (simp add:
        eval_defs healthy_def)
  show ?thesis using read_query_rejects[OF 1 2 3, of healthy no_args initial]
    by (simp add: sql_arg_def)
qed

text \<open>
  Claim C2 as it was stated speaks of the leading keyword. The check is a prefix test:
  the leading keyword of \<^verbatim>\<open>SelectX 1\<close> is \<^verbatim>\<open>selectx\<close>, which is none of the three, and
  yet the statement is accepted, a tunnel is opened and the statement is sent.
\<close>

theorem read_query_keyword_counterexample:
  "spec_leadingKeyword ''  SelectX 1'' = ''selectx''
   \<and> ''selectx'' \<noteq> ''select'' \<and> ''selectx'' \<noteq> ''show'' \<and> ''selectx'' \<noteq> ''describe''
   \<and> fst (callTool healthy ''read_query'' (sql_arg ''  SelectX 1'') initial)
       = Inr [JSON_stringify (JRows some_rows)]
   \<and> trace (snd (callTool healthy ''read_query'' (sql_arg ''  SelectX 1'') initial)) =
       [ReadKeyFile, CreateTunnel, ConsoleError ''SSH tunnel opened'', CreatePool,
        PoolExecute ''  SelectX 1'', SetTimeout 300000]
   \<and> sshTunnel (snd (callTool healthy ''read_query'' (sql_arg ''  SelectX 1'') initial)) = Some 0"
  by (simp add: eval_defs spec_leadingKeyword_def healthy_def some_rows_def sql_arg_def no_args_def)

section \<open>Pool and tunnel together\<close>

lemma tunnel_gives_invariant: "sshTunnel s \<noteq> None \<Longrightarrow> pool_needs_tunnel s"
  by (simp add: pool_needs_tunnel_def)

lemma no_pool_gives_invariant: "pool s = None \<Longrightarrow> pool_needs_tunnel s"
  by (simp add: pool_needs_tunnel_def)

lemma ensureConnection_inv:
  assumes "pool_needs_tunnel s" and "ensureConnection W s = (r, s1)"
  shows "pool_needs_tunnel s1"
proof (cases "sshTunnel s = None")
  case True
  then have "pool s1 = None"
    using assms ensureConnection_frame(1)[OF assms(2)] by (auto simp: pool_needs_tunnel_def)
  then show ?thesis by (rule no_pool_gives_invariant)
next
  case False
  then show ?thesis using assms ensureConnection_open[of s W] by simp
qed

lemma closeTunnel_inv:
  assumes "pool_needs_tunnel s"
  shows "pool_needs_tunnel (snd (closeTunnel W s))"
proof (cases "closeTunnel W s")
  case (Pair r s1)
  show ?thesis
  proof (cases r)
    case (Inl e)
    then show ?thesis
      using assms closeTunnel_failed(1,2)[of W s e s1] Pair by (simp add: pool_needs_tunnel_def)
  next
    case (Inr u)
    then show ?thesis
      using closeTunnel_ok(2)[of W s u s1] Pair by (simp add: pool_needs_tunnel_def)
  qed
qed

lemma query_inv:
  assumes "sshTunnel s \<noteq> None"
  shows "sshTunnel (snd (query W sql s)) \<noteq> None"
  using assms by (simp add: query_frame)

lemma runQuery_query_inv:
  assumes inv: "pool_needs_tunnel s"
  shows "pool_needs_tunnel (snd (runQuery W (query W sql) s))"
proof (cases "ensureConnection W s")
  case (Pair r s1)
  note conn = Pair
  have inv1: "pool_needs_tunnel s1" using ensureConnection_inv[OF inv conn] .
  show ?thesis
  proof (cases r)
    case (Inl e)
    then show ?thesis using conn inv1 by (simp add: runQuery_def)
  next
    case (Inr u)
    have t1: "sshTunnel s1 \<noteq> None" using ensureConnection_ok[of W s u s1] conn Inr by simp
    obtain r2 s2 where q: "query W sql s1 = (r2, s2)" by (cases "query W sql s1")
    have t2: "sshTunnel s2 \<noteq> None" using query_inv[OF t1, of W sql] q by simp
    show ?thesis
    proof (cases r2)
      case (Inr result)
      then show ?thesis using conn \<open>r = Inr u\<close> q t2
        by (simp add: runQuery_def tunnel_gives_invariant)
    next
      case (Inl error)
      note err = Inl
      show ?thesis
      proof (cases "isTransient error")
        case False
        then show ?thesis using conn \<open>r = Inr u\<close> q t2 err
          by (simp add: runQuery_def tunnel_gives_invariant)
      next
        case True
        let ?s2' = "emit (ConsoleError ''Connection lost, reconnecting...'') s2"
        obtain r3 s3 where c: "closeTunnel W ?s2' = (r3, s3)" by (cases "closeTunnel W ?s2'")
        have inv3: "pool_needs_tunnel s3"
          using closeTunnel_inv[of ?s2' W] t2 c by (simp add: tunnel_gives_invariant)
        show ?thesis
        proof (cases r3)
          case (Inl e3)
          then show ?thesis using conn \<open>r = Inr u\<close> q err True c inv3
            by (simp add: runQuery_def)
        next
          case (Inr u3)
          obtain r4 s4 where c4: "ensureConnection W s3 = (r4, s4)"
            by (cases "ensureConnection W s3")
          have inv4: "pool_needs_tunnel s4" using ensureConnection_inv[OF inv3 c4] .
          show ?thesis
          proof (cases r4)
            case (Inl e4)
            then show ?thesis using conn \<open>r = Inr u\<close> q err True c \<open>r3 = Inr u3\<close> c4 inv4
              by (simp add: runQuery_def)
          next
            case (Inr u4)
            have t4: "sshTunnel s4 \<noteq> None"
              using ensureConnection_ok[of W s3 u4 s4] c4 Inr by simp
            obtain r5 s5 where q5: "query W sql s4 = (r5, s5)" by (cases "query W sql s4")
            have t5: "sshTunnel s5 \<noteq> None" using query_inv[OF t4, of W sql] q5 by simp
            show ?thesis using conn \<open>r = Inr u\<close> q err True c \<open>r3 = Inr u3\<close> c4 Inr q5 t5
              by (cases r5) (simp_all add: runQuery_def tunnel_gives_invariant)
          qed
        qed
      qed
    qed
  qed
qed

lemma results_payload_state [simp]: "snd (results_payload r) = snd r"
  by (simp add: results_payload_def split: prod.splits sum.splits)

lemma connect_db_inv:
  assumes inv: "pool_needs_tunnel s"
  shows "pool_needs_tunnel (snd (toolBody W ''connect_db'' a s))"
proof (cases "ensureConnection W s")
  case (Pair r s1)
  have inv1: "pool_needs_tunnel s1" using ensureConnection_inv[OF inv Pair] .
  show ?thesis
  proof (cases r)
    case (Inl e)
    then show ?thesis using Pair inv1 by (simp add: toolBody_def)
  next
    case (Inr u)
    have t1: "sshTunnel s1 \<noteq> None" using ensureConnection_ok[of W s u s1] Pair Inr by simp
    obtain b s2 where t: "testConnection W s1 = (b, s2)" by (cases "testConnection W s1")
    have "s2 = snd (query W ''SELECT 1'' s1)"
      using t by (auto simp: testConnection_def split: prod.splits sum.splits)
    then have "sshTunnel s2 \<noteq> None"
      using query_inv[OF t1] by simp
    then show ?thesis using Pair Inr t
      by (simp add: toolBody_def tunnel_gives_invariant)
  qed
qed

lemma toolBody_inv:
  assumes inv: "pool_needs_tunnel s"
  shows "pool_needs_tunnel (snd (toolBody W name a s))"
proof -
  consider "name = ''read_query''" | "name = ''list_tables''" | "name = ''describe_table''"
    | "name = ''connect_db''"
    | "name \<noteq> ''read_query''" "name \<noteq> ''list_tables''" "name \<noteq> ''describe_table''"
      "name \<noteq> ''connect_db''"
    by blast
  then show ?thesis
  proof cases
    case 1
    then show ?thesis using inv runQuery_query_inv[OF inv]
      by (simp add: toolBody_def split: sum.splits jsval.splits)
  next
    case 2
    then show ?thesis using runQuery_query_inv[OF inv] by (simp add: toolBody_def)
  next
    case 3
    then show ?thesis using inv runQuery_query_inv[OF inv]
      by (simp add: toolBody_def split: sum.splits jsval.splits)
  next
    case 4
    then show ?thesis using connect_db_inv[OF inv] by simp
  next
    case 5
    then show ?thesis using inv by (simp add: toolBody_def)
  qed
qed

lemma callTool_state: "snd (callTool W name a s) = snd (toolBody W name a s)"
  by (simp add: callTool_def split: prod.splits sum.splits)

lemma elapse_inv:
  assumes inv: "pool_needs_tunnel s"
  shows "pool_needs_tunnel (elapse W d s)"
proof -
  have a: "pool_needs_tunnel (s\<lparr>now := t\<rparr>)" for t
    using inv by (simp add: pool_needs_tunnel_def)
  have b: "pool_needs_tunnel x \<Longrightarrow> pool_needs_tunnel (x\<lparr>now := t\<rparr>)" for x t
    by (simp add: pool_needs_tunnel_def)
  show ?thesis
    using a b closeTunnel_inv by (simp add: elapse_def split: option.splits)
qed

lemma handler_effect:
  assumes "handler_runs W act s"
  shows "pool (step W act s) = pool s" and "sshTunnel (step W act s) = None"
  using assms
  by (cases act; simp add: conn_on_close_def conn_on_error_def)+

lemma step_inv:
  assumes "pool_needs_tunnel s" and "\<not> (handler_runs W act s \<and> pool s \<noteq> None)"
  shows "pool_needs_tunnel (step W act s)"
proof (cases "handler_runs W act s")
  case True
  then have "pool (step W act s) = None"
    using assms(2) handler_effect(1)[OF True] by simp
  then show ?thesis by (rule no_pool_gives_invariant)
next
  case False
  have e: "pool_needs_tunnel (emit ev s)" for ev
    using assms(1) by (simp add: pool_needs_tunnel_def)
  show ?thesis
    using False assms(1) e
    by (cases act) (simp_all add: callTool_state toolBody_inv elapse_inv closeTunnel_inv)
qed

lemma run_inv:
  assumes "pool_needs_tunnel s" and "\<not> handler_meets_pool W acts s"
  shows "pool_needs_tunnel (run W acts s)"
  using assms
proof (induction acts arbitrary: s)
  case Nil
  then show ?case by (simp add: run_def)
next
  case (Cons act acts)
  have "pool_needs_tunnel (step W act s)" using Cons.prems by (simp add: step_inv)
  then have "pool_needs_tunnel (run W acts (step W act s))" using Cons by simp
  then show ?case by (simp add: run_def)
qed

text \<open>
  Claim C3, as amended. The server starts and goes through tool calls, the passing of
  time (with the idle timeout firing), SIGINT and events of its SSH connections. As long
  as no connection handler has run while a pool existed, a pool exists only while a
  tunnel handle exists: \<open>closeTunnel\<close> ends the pool before it clears the handle. A
  connection handler that runs, whatever caused the event, leaves the pool as it is and
  clears the handle; so when it runs while a pool exists, that pool is left without a
  handle.
\<close>

theorem pool_never_outlives_tunnel:
  assumes "\<not> handler_meets_pool W acts initial"
  shows "pool_needs_tunnel (run W acts initial)
         \<and> (handler_runs W act s \<longrightarrow>
              pool (step W act s) = pool s \<and> sshTunnel (step W act s) = None)"
  using run_inv[of initial W acts] assms handler_effect[of W act s]
  by (simp add: no_pool_gives_invariant initial_fields)

text \<open>
  The theorem at work: a query that is retried after a reset (connection 0 is ended,
  connection 1 opened), then the idle timeout (connection 1 is ended), then the \<^verbatim>\<open>close\<close>
  events that the two \<^verbatim>\<open>conn.end()\<close> calls provoke, which find no pool, then SIGINT.
\<close>

theorem pool_never_outlives_tunnel_witness:
  "\<not> handler_meets_pool flaky
       [CallTool ''list_tables'' None, Elapse 400000, ConnClose 0, ConnClose 1, Sigint] initial
   \<and> handler_runs flaky (ConnClose 1) (run flaky [CallTool ''list_tables'' None, Elapse 400000] initial)
   \<and> pool_needs_tunnel (run flaky
       [CallTool ''list_tables'' None, Elapse 400000, ConnClose 0, ConnClose 1, Sigint] initial)
   \<and> pool (run flaky [CallTool ''list_tables'' None] initial) = Some 1
   \<and> sshTunnel (run flaky [CallTool ''list_tables'' None] initial) = Some 1
   \<and> pool (run flaky [CallTool ''list_tables'' None, Elapse 400000, ConnClose 0] initial) = None
   \<and> sshTunnel (run flaky [CallTool ''list_tables'' None, Elapse 400000, ConnClose 0] initial) = None"
proof -
  note defs = eval_defs flaky_def healthy_def ECONNRESET_def some_rows_def
  have 1: "\<not> handler_meets_pool flaky
       [CallTool ''list_tables'' None, Elapse 400000, ConnClose 0, ConnClose 1, Sigint] initial"
    by (simp add: defs)
  have 2: "handler_runs flaky (ConnClose 1)
             (run flaky [CallTool ''list_tables'' None, Elapse 400000] initial)"
    by (simp add: defs)
  show ?thesis
    using 1 2 pool_never_outlives_tunnel[OF 1, of "ConnClose 1"
        "run flaky [CallTool ''list_tables'' None, Elapse 400000] initial"]
    by (simp add: defs)
qed

text \<open>
  Claim C3 as it was stated fails in two ways. The SSH connection closes by itself:
  after \<^verbatim>\<open>connect_db\<close> and a \<^verbatim>\<open>close\<close> event of connection 0 the handle is gone and the
  pool is still there. And a deliberate close does it too: a query that is retried
  after a reset ends connection 0 and goes on with connection 1 and a new pool; the
  \<^verbatim>\<open>close\<close> event of connection 0 that follows its \<^verbatim>\<open>conn.end()\<close> then clears the handle of
  connection 1 and leaves the new pool.
\<close>

theorem pool_without_tunnel_counterexample:
  "registered healthy 0 (run healthy [CallTool ''connect_db'' None] initial)
   \<and> pool (run healthy [CallTool ''connect_db'' None, ConnClose 0] initial) = Some 0
   \<and> sshTunnel (run healthy [CallTool ''connect_db'' None, ConnClose 0] initial) = None
   \<and> registered flaky 0 (run flaky [CallTool ''list_tables'' None] initial)
   \<and> n_events is_ConnEnd (run flaky [CallTool ''list_tables'' None] initial) = 1
   \<and> sshTunnel (run flaky [CallTool ''list_tables'' None] initial) = Some 1
   \<and> pool (run flaky [CallTool ''list_tables'' None, ConnClose 0] initial) = Some 1
   \<and> sshTunnel (run flaky [CallTool ''list_tables'' None, ConnClose 0] initial) = None"
  by (simp add: eval_defs healthy_def flaky_def ECONNRESET_def some_rows_def)

section \<open>Errors during teardown\<close>

text \<open>
  What \<open>closeTunnel\<close> lets through is exactly a rejection of \<^verbatim>\<open>pool.end()\<close>; errors of
  \<^verbatim>\<open>server.close()\<close> and \<^verbatim>\<open>conn.end()\<close> never reach the caller.
\<close>

lemma closeTunnel_completes:
  assumes "pool s = None \<or> pool_end_rejects W (n_events is_PoolEnd s) = None"
  shows "\<exists>s1. closeTunnel W s = (Inr (), s1)"
  using assms
  by (auto simp: closeTunnel_def close_def Let_def split: option.splits)

text \<open>
  Claim C4 says that \<open>closeTunnel\<close> never passes an error on and always clears the
  handle. Here the code is run where \<^verbatim>\<open>pool.end()\<close> rejects: after \<^verbatim>\<open>connect_db\<close> a pool
  and a tunnel exist; \<open>closeTunnel\<close> then rejects with the error of \<^verbatim>\<open>pool.end()\<close>, the
  await being outside the \<^verbatim>\<open>try\<close>, and neither the handle nor the pool is cleared, nor
  is the listener closed.
\<close>

theorem closeTunnel_propagates_pool_end_failure:
  "pool (run end_fails [CallTool ''connect_db'' None] initial) = Some 0
   \<and> sshTunnel (run end_fails [CallTool ''connect_db'' None] initial) = Some 0
   \<and> fst (closeTunnel end_fails (run end_fails [CallTool ''connect_db'' None] initial)) = Inl ECONNRESET
   \<and> sshTunnel (snd (closeTunnel end_fails (run end_fails [CallTool ''connect_db'' None] initial))) = Some 0
   \<and> pool (snd (closeTunnel end_fails (run end_fails [CallTool ''connect_db'' None] initial))) = Some 0
   \<and> n_events is_ServerClose (snd (closeTunnel end_fails (run end_fails [CallTool ''connect_db'' None] initial))) = 0"
  by (simp add: eval_defs end_fails_def healthy_def ECONNRESET_def some_rows_def)

section \<open>The idle timeout\<close>

text \<open>
  After a successful operation the timeout is pending; when it is reached the tunnel
  and the pool are closed once, and the next operation opens a new tunnel.
\<close>

lemma idle_timer_fires_once:
  "sshTunnel (run healthy [CallTool ''list_tables'' None, Elapse IDLE_TIMEOUT_MS] initial) = None
   \<and> pool (run healthy [CallTool ''list_tables'' None, Elapse IDLE_TIMEOUT_MS] initial) = None
   \<and> idleTimer (run healthy [CallTool ''list_tables'' None, Elapse IDLE_TIMEOUT_MS] initial) = None
   \<and> n_events is_ServerClose (run healthy [CallTool ''list_tables'' None, Elapse IDLE_TIMEOUT_MS,
        Elapse IDLE_TIMEOUT_MS] initial) = 1
   \<and> sshTunnel (run healthy [CallTool ''list_tables'' None, Elapse IDLE_TIMEOUT_MS,
        CallTool ''connect_db'' None] initial) = Some 1"
  by (simp add: eval_defs healthy_def some_rows_def)

text \<open>
  Claim C5 says that a tunnel opened by an operation is torn down once the idle
  duration has passed. Here the code is run where the operation that opens the tunnel
  fails in its query with an error that is not transient: \<open>resetIdleTimer\<close> is reached
  only after a successful query, so no timeout is pending, and ten idle durations
  later the tunnel and the pool are still open.
\<close>

theorem failed_first_query_leaves_tunnel_without_timer:
  "fst (callTool no_such_table ''read_query'' (sql_arg ''SELECT * FROM missing'') initial)
     = Inr [Plain ''Error: Table app.missing does not exist'']
   \<and> sshTunnel (run no_such_table [CallTool ''read_query'' (sql_arg ''SELECT * FROM missing'')] initial) = Some 0
   \<and> idleTimer (run no_such_table [CallTool ''read_query'' (sql_arg ''SELECT * FROM missing'')] initial) = None
   \<and> sshTunnel (run no_such_table [CallTool ''read_query'' (sql_arg ''SELECT * FROM missing''),
        Elapse (10 * IDLE_TIMEOUT_MS)] initial) = Some 0
   \<and> pool (run no_such_table [CallTool ''read_query'' (sql_arg ''SELECT * FROM missing''),
        Elapse (10 * IDLE_TIMEOUT_MS)] initial) = Some 0
   \<and> n_events is_ServerClose (run no_such_table [CallTool ''read_query'' (sql_arg ''SELECT * FROM missing''),
        Elapse (10 * IDLE_TIMEOUT_MS)] initial) = 0"
  by (simp add: eval_defs no_such_table_def healthy_def ER_NO_SUCH_TABLE_def sql_arg_def
        no_args_def)

section \<open>Errors that are not transient\<close>

text \<open>
  Claim C6. A statement sent through \<open>runQuery\<close> fails with an error that is not
  transient. Then the caller gets that error, and the state is the one the failed
  statement left: the statement was sent once, the tunnel handle is the one the
  statement ran on (the one from before the call when a tunnel was open), a pool that
  existed is still the same pool, the pending timeout is untouched, and nothing was
  closed.
\<close>

theorem runQuery_nontransient:
  assumes conn: "ensureConnection W s = (Inr u, s1)"
    and fail: "pool_execute W (n_events is_PoolExecute s) sql = Inl e"
    and nontrans: "\<not> isTransient e"
  shows "runQuery W (query W sql) s = (Inl e, snd (query W sql s1))
         \<and> sshTunnel (snd (runQuery W (query W sql) s)) = sshTunnel s1
         \<and> (sshTunnel s \<noteq> None \<longrightarrow> sshTunnel (snd (runQuery W (query W sql) s)) = sshTunnel s)
         \<and> (pool s \<noteq> None \<longrightarrow> pool (snd (runQuery W (query W sql) s)) = pool s)
         \<and> pool (snd (runQuery W (query W sql) s)) \<noteq> None
         \<and> idleTimer (snd (runQuery W (query W sql) s)) = idleTimer s
         \<and> n_events is_PoolExecute (snd (runQuery W (query W sql) s)) = n_events is_PoolExecute s + 1
         \<and> n_events is_PoolEnd (snd (runQuery W (query W sql) s)) = n_events is_PoolEnd s
         \<and> n_events is_ServerClose (snd (runQuery W (query W sql) s)) = n_events is_ServerClose s
         \<and> n_events is_ConnEnd (snd (runQuery W (query W sql) s)) = n_events is_ConnEnd s
         \<and> n_events is_ClearTimeout (snd (runQuery W (query W sql) s)) = n_events is_ClearTimeout s"
proof -
  have n1: "n_events is_PoolExecute s1 = n_events is_PoolExecute s"
    using ensureConnection_frame(4)[OF conn, of is_PoolExecute] by simp
  obtain s2 where q1: "query W sql s1 = (Inl e, s2)"
    using query_result[of W sql s1] fail n1 by (cases "query W sql s1") simp
  have s2: "s2 = snd (query W sql s1)" by (simp add: q1)
  have res: "runQuery W (query W sql) s = (Inl e, s2)"
    by (simp add: runQuery_def conn q1 nontrans)
  have same: "sshTunnel s \<noteq> None \<Longrightarrow> s1 = s"
    using conn ensureConnection_open[of s W] by simp
  have frame: "pool s1 = pool s" "idleTimer s1 = idleTimer s"
    "n_events is_PoolEnd s1 = n_events is_PoolEnd s"
    "n_events is_ServerClose s1 = n_events is_ServerClose s"
    "n_events is_ConnEnd s1 = n_events is_ConnEnd s"
    "n_events is_ClearTimeout s1 = n_events is_ClearTimeout s"
    using ensureConnection_frame[OF conn] by simp_all
  show ?thesis
    using same frame n1 by (auto simp: res s2 query_frame)
qed

text \<open>The theorem at work on a statement that names a missing table.\<close>

theorem runQuery_nontransient_witness:
  "fst (runQuery no_such_table (query no_such_table ''SELECT * FROM missing'') initial) = Inl ER_NO_SUCH_TABLE
   \<and> sshTunnel (snd (runQuery no_such_table (query no_such_table ''SELECT * FROM missing'') initial)) = Some 0
   \<and> n_events is_PoolExecute (snd (runQuery no_such_table (query no_such_table ''SELECT * FROM missing'') initial)) = 1
   \<and> n_events is_PoolEnd (snd (runQuery no_such_table (query no_such_table ''SELECT * FROM missing'') initial)) = 0"
proof -
  have 1: "ensureConnection no_such_table initial = (Inr (), snd (ensureConnection no_such_table initial))"
    by (simp add: eval_defs no_such_table_def healthy_def ER_NO_SUCH_TABLE_def)
  have 2: "pool_execute no_such_table (n_events is_PoolExecute initial) ''SELECT * FROM missing'' = Inl ER_NO_SUCH_TABLE"
    by (simp add: eval_defs no_such_table_def healthy_def ER_NO_SUCH_TABLE_def)
  have 3: "\<not> isTransient ER_NO_SUCH_TABLE" by (simp add: eval_defs no_such_table_def
        healthy_def ER_NO_SUCH_TABLE_def)
  show ?thesis using runQuery_nontransient[OF 1 2 3] by (simp add: eval_defs no_such_table_def
        healthy_def ER_NO_SUCH_TABLE_def)
qed

section \<open>Sanitizing table names\<close>

lemma replace_g_filter: "replace_g (\<lambda>c. \<not> P c) [] t = filter P t"
  by (induction t) simp_all

lemma word_char_set:
  "word_char c = (c \<in> set ''abcdefghijklmnopqrstuvwxyzABCDEFGHIJKLMNOPQRSTUVWXYZ0123456789_'')"
  by (cases c) (simp add: word_char_def)

text \<open>
  Claim C7. \<open>sanitizeTableName\<close> keeps exactly the characters of \<^verbatim>\<open>[a-zA-Z0-9_]\<close>, in
  their order, and drops every other one; applying it twice is applying it once;
  and \<^verbatim>\<open>describe_table\<close> sends \<^verbatim>\<open>DESCRIBE\<close> followed by the sanitized name, so that a name
  and its sanitized form give the same call.
\<close>

theorem sanitizeTableName_strips:
  "sanitizeTableName t =
     filter (\<lambda>c. c \<in> set ''abcdefghijklmnopqrstuvwxyzABCDEFGHIJKLMNOPQRSTUVWXYZ0123456789_'') t
   \<and> sanitizeTableName (sanitizeTableName t) = sanitizeTableName t
   \<and> callTool W ''describe_table'' (Some (a(''table'' := JString t))) s =
       callTool W ''describe_table'' (Some (a(''table'' := JString (sanitizeTableName t)))) s
   \<and> toolBody W ''describe_table'' (Some (a(''table'' := JString t))) s =
       results_payload (runQuery W (query W (''DESCRIBE '' @ sanitizeTableName t)) s)"
proof -
  have f: "sanitizeTableName t = filter word_char t" for t
    by (simp add: sanitizeTableName_def replace_g_filter)
  have w: "word_char = (\<lambda>c. c \<in> set ''abcdefghijklmnopqrstuvwxyzABCDEFGHIJKLMNOPQRSTUVWXYZ0123456789_'')"
    by (rule ext) (rule word_char_set)
  have b: "toolBody W ''describe_table'' (Some (a(''table'' := JString t))) s =
       results_payload (runQuery W (query W (''DESCRIBE '' @ sanitizeTableName t)) s)" for t
    by (simp add: toolBody_def get_arg_def)
  have i: "sanitizeTableName (sanitizeTableName t) = sanitizeTableName t"
    by (simp add: f)
  have "sanitizeTableName t = filter (\<lambda>c. c \<in> set ''abcdefghijklmnopqrstuvwxyzABCDEFGHIJKLMNOPQRSTUVWXYZ0123456789_'') t"
    unfolding f w ..
  moreover have "callTool W ''describe_table'' (Some (a(''table'' := JString t))) s =
       callTool W ''describe_table'' (Some (a(''table'' := JString (sanitizeTableName t)))) s"
    by (simp only: callTool_def b i)
  ultimately show ?thesis using i b by blast
qed

text \<open>The theorem at work on a name that carries a backquote, a semicolon and a space.\<close>

theorem sanitizeTableName_strips_witness:
  "sanitizeTableName ''us`ers; DROP'' = ''usersDROP''
   \<and> trace (snd (callTool healthy ''describe_table'' (table_arg ''us`ers; DROP'') initial)) =
       [ReadKeyFile, CreateTunnel, ConsoleError ''SSH tunnel opened'', CreatePool,
        PoolExecute ''DESCRIBE usersDROP'', SetTimeout 300000]"
  using sanitizeTableName_strips[of "''us`ers; DROP''" healthy no_args initial]
  by (simp add: eval_defs healthy_def some_rows_def table_arg_def no_args_def)

section \<open>Two callers and no tunnel\<close>

text \<open>
  An operation that finds no tunnel runs, without a suspension, from the handler
  through \<open>runQuery\<close> or \<^verbatim>\<open>connect_db\<close> and \<open>ensureConnection\<close> up to the
  \<^verbatim>\<open>await createTunnel(...)\<close>; that stretch is \<open>openTunnel_start\<close>. A second operation
  that arrives while the first is suspended there runs the same stretch on the state
  the first left.

  Claim C8, as amended. The only guard of \<open>openTunnel\<close> is the handle of a completed
  open. A caller that comes after an open has completed gets \<^verbatim>\<open>true\<close> and no library
  is called. Two callers that both start while no handle exists (and the key file is
  readable) each call \<^verbatim>\<open>createTunnel\<close>: two open attempts, and the second caller waits
  for its own attempt, not for the first caller's.
\<close>

theorem openTunnel_no_inflight_guard:
  assumes "sshTunnel s = None"
    and "readFileSync_throws W (n_events is_ReadKeyFile s) = None"
    and "readFileSync_throws W (Suc (n_events is_ReadKeyFile s)) = None"
  shows "n_events is_CreateTunnel (snd (openTunnel_start W (snd (openTunnel_start W s))))
           = n_events is_CreateTunnel s + 2
         \<and> fst (openTunnel_start W (snd (openTunnel_start W s)))
           = AwaitCreateTunnel (Suc (n_events is_CreateTunnel s))
         \<and> (fst (openTunnel W s) = Inr True \<longrightarrow>
              openTunnel W (snd (openTunnel W s)) = (Inr True, snd (openTunnel W s))
              \<and> ensureConnection W (snd (openTunnel W s)) = (Inr (), snd (openTunnel W s)))"
proof -
  have a: "openTunnel_start W s = (AwaitCreateTunnel (n_events is_CreateTunnel s),
              emit CreateTunnel (emit ReadKeyFile s))"
    using assms by (simp add: openTunnel_start_def)
  have b: "openTunnel_start W (emit CreateTunnel (emit ReadKeyFile s)) =
             (AwaitCreateTunnel (Suc (n_events is_CreateTunnel s)),
              emit CreateTunnel (emit ReadKeyFile (emit CreateTunnel (emit ReadKeyFile s))))"
    using assms by (simp add: openTunnel_start_def)
  obtain r s1 where o: "openTunnel W s = (r, s1)" by (cases "openTunnel W s")
  have c: "fst (openTunnel W s) = Inr True \<Longrightarrow> sshTunnel (snd (openTunnel W s)) \<noteq> None"
    using openTunnel_frame(4)[OF o] by (simp add: o)
  show ?thesis
    using c by (simp add: a b openTunnel_open ensureConnection_open)
qed

text \<open>The theorem at work on the initial state.\<close>

theorem openTunnel_no_inflight_guard_witness:
  "n_events is_CreateTunnel (snd (openTunnel_start healthy (snd (openTunnel_start healthy initial)))) = 2
   \<and> openTunnel healthy (snd (openTunnel healthy initial)) = (Inr True, snd (openTunnel healthy initial))
   \<and> n_events is_CreateTunnel (snd (openTunnel healthy (snd (openTunnel healthy initial)))) = 1"
proof -
  have 1: "sshTunnel initial = None" by (simp add: eval_defs healthy_def)
  have 2: "readFileSync_throws healthy (n_events is_ReadKeyFile initial) = None" by (simp add:
        eval_defs healthy_def)
  have 3: "readFileSync_throws healthy (Suc (n_events is_ReadKeyFile initial)) = None" by (simp add:
        eval_defs healthy_def)
  show ?thesis using openTunnel_no_inflight_guard[OF 1 2 3] by (simp add: eval_defs healthy_def)
qed

text \<open>
  Claim C8 as it was stated fails: two operations that start on the initial state, the
  second before the first resumes, make two \<^verbatim>\<open>createTunnel\<close> calls.
\<close>

theorem concurrent_open_counterexample:
  "sshTunnel initial = None
   \<and> fst (openTunnel_start healthy initial) = AwaitCreateTunnel 0
   \<and> fst (openTunnel_start healthy (snd (openTunnel_start healthy initial))) = AwaitCreateTunnel 1
   \<and> trace (snd (openTunnel_start healthy (snd (openTunnel_start healthy initial))))
       = [ReadKeyFile, CreateTunnel, ReadKeyFile, CreateTunnel]"
  by (simp add: eval_defs healthy_def)

section \<open>The handler never throws\<close>

text \<open>
  Claim C9. Whatever the tool name, the arguments, the state and the world, the
  handler resolves with a result: the result of the body when the body returned one,
  and otherwise the text \<^verbatim>\<open>Error: \<close> followed by the message of what the body threw.
\<close>

theorem callTool_never_throws:
  "fst (callTool W name a s) =
     Inr (case fst (toolBody W name a s) of
            Inl error \<Rightarrow> [Plain (''Error: '' @ shown_message error)]
          | Inr p \<Rightarrow> p)
   \<and> snd (callTool W name a s) = snd (toolBody W name a s)"
  by (simp add: callTool_def error_payload_def split: prod.splits sum.splits)

text \<open>
  The theorem at work: an unreadable key file, missing arguments, an unknown tool, a
  tunnel that cannot be opened, and a call that succeeds.
\<close>

theorem callTool_never_throws_witness:
  "fst (callTool no_key ''list_tables'' None initial) =
     Inr [Plain ''Error: ENOENT: no such file or directory, open'']
   \<and> fst (callTool healthy ''read_query'' None initial) =
     Inr [Plain (''Error: Cannot read properties of undefined (reading '' @ [CHR 0x27] @ ''sql'' @ [CHR 0x27] @ '')'')]
   \<and> fst (callTool healthy ''drop_everything'' None initial) =
     Inr [Plain ''Error: Unknown tool: drop_everything'']
   \<and> fst (callTool reopen_fails ''describe_table'' (table_arg ''users'') initial) =
     Inr [Plain ''Error: Could not establish SSH tunnel to database server'']
   \<and> fst (callTool healthy ''connect_db'' None initial) =
     Inr [JSON_stringify (JObject [(''connected'', JBool True), (''host'', JStr ''localhost''),
            (''database'', JStr ''app''), (''tunnel'', JStr ''open'')])]"
  using callTool_never_throws[of no_key "''list_tables''" None initial]
  by (simp add: eval_defs healthy_def no_key_def reopen_fails_def flaky_def ENOENT_def
        ECONNRESET_def ECONNREFUSED_def some_rows_def table_arg_def no_args_def)

section \<open>The health report\<close>

text \<open>
  Claim C10. When the tunnel is open or opens, and the health query \<^verbatim>\<open>SELECT 1\<close> fails
  with whatever error, \<^verbatim>\<open>connect_db\<close> answers with the report and not with an error
  text: \<^verbatim>\<open>connected\<close> is false while \<^verbatim>\<open>tunnel\<close> reads \<^verbatim>\<open>open\<close>, and the tunnel is indeed
  still held.
\<close>

theorem connect_db_connected_false_tunnel_open:
  assumes conn: "ensureConnection W s = (Inr u, s1)"
    and fail: "pool_execute W (n_events is_PoolExecute s) ''SELECT 1'' = Inl e"
  shows "fst (callTool W ''connect_db'' a s) =
           Inr [JSON_stringify (JObject
                  [(''connected'', JBool False),
                   (''host'', json_of_env (env_DB_HOST W)),
                   (''database'', json_of_env (env_DB_NAME W)),
                   (''tunnel'', JStr ''open'')])]
         \<and> sshTunnel (snd (callTool W ''connect_db'' a s)) \<noteq> None"
proof -
  have n1: "n_events is_PoolExecute s1 = n_events is_PoolExecute s"
    using ensureConnection_frame(4)[OF conn, of is_PoolExecute] by simp
  obtain s2 where q1: "query W ''SELECT 1'' s1 = (Inl e, s2)"
    using query_result[of W "''SELECT 1''" s1] fail n1 by (cases "query W ''SELECT 1'' s1") simp
  have s2: "s2 = snd (query W ''SELECT 1'' s1)" by (simp add: q1)
  have t: "testConnection W s1 = (False, s2)"
    by (simp add: testConnection_def q1)
  have open2: "sshTunnel s2 \<noteq> None"
    using ensureConnection_ok[OF conn] by (simp add: s2 query_frame)
  show ?thesis
    using open2 by (simp add: callTool_def toolBody_def conn t)
qed

text \<open>The theorem at work where the database refuses the user.\<close>

theorem connect_db_connected_false_tunnel_open_witness:
  "fst (callTool access_denied ''connect_db'' None initial) =
     Inr [JSON_stringify (JObject [(''connected'', JBool False), (''host'', JStr ''localhost''),
            (''database'', JStr ''app''), (''tunnel'', JStr ''open'')])]"
proof -
  have 1: "ensureConnection access_denied initial = (Inr (), snd (ensureConnection access_denied initial))"
    by (simp add: eval_defs access_denied_def healthy_def ER_ACCESS_DENIED_def)
  have 2: "pool_execute access_denied (n_events is_PoolExecute initial) ''SELECT 1'' = Inl ER_ACCESS_DENIED"
    by (simp add: eval_defs access_denied_def healthy_def ER_ACCESS_DENIED_def)
  show ?thesis using connect_db_connected_false_tunnel_open[OF 1 2, of None]
    by (simp add: eval_defs access_denied_def healthy_def ER_ACCESS_DENIED_def)
qed

end
